theory Spec2Isabelle
  imports Complex_Main
begin

section \<open>Python values, dictionaries and exceptions\<close>

text \<open>
  The analysis dictionary of the program holds an integer under \<open>"vehicle_count"\<close> and a
  string under \<open>"status"\<close>. Python integers are unbounded, so they are \<open>int\<close>. Durations
  and clock readings are Python floats in the source and exact rationals here. A vehicle
  count is the number of detections in one frame, so \<open>count * 0.5\<close> is a multiple of one
  half far below \<open>2 ^ 53\<close>, which binary floating point represents exactly: on such
  counts the rational arithmetic and the float arithmetic agree.
\<close>

datatype pyval = PInt int | PStr string

type_synonym dict = "string \<rightharpoonup> pyval"

datatype error = TypeError | KeyError | DetectorError

section \<open>traffic\_logic/traffic\_light.py\<close>

record traffic_light_controller =
  state :: string
  green_light_base_duration :: rat
  green_light_max_duration :: rat
  current_green_duration :: rat

text \<open>\<open>__init__\<close>: the fields as the constructor assigns them (the thread it starts is
  \<open>init_system\<close> below). The two locks make each block they guard atomic; the steps of
  the interleaving below are cut at exactly those blocks.\<close>

definition TrafficLightController_init :: traffic_light_controller where
  "TrafficLightController_init =
     \<lparr> state = ''red'',
       green_light_base_duration = 5,
       green_light_max_duration = 20,
       current_green_duration = 5 \<rparr>"

record light_snapshot =
  red :: bool
  yellow :: bool
  green :: bool

definition get_state :: "traffic_light_controller \<Rightarrow> light_snapshot" where
  "get_state k =
     \<lparr> red = (state k = ''red''),
       yellow = (state k = ''yellow''),
       green = (state k = ''green'') \<rparr>"

definition set_state :: "traffic_light_controller \<Rightarrow> string \<Rightarrow> traffic_light_controller" where
  "set_state k new_state =
     (if state k \<noteq> new_state then k\<lparr>state := new_state\<rparr> else k)"

text \<open>\<open>analysis_data.get("vehicle_count", 0)\<close>.\<close>

definition dict_get :: "dict \<Rightarrow> string \<Rightarrow> pyval \<Rightarrow> pyval" where
  "dict_get d key dflt = (case d key of None \<Rightarrow> dflt | Some v \<Rightarrow> v)"

text \<open>Multiplying a string by \<open>0.5\<close> raises \<open>TypeError\<close>; nothing has been assigned then.\<close>

definition update_logic_with_analysis ::
    "traffic_light_controller \<Rightarrow> dict \<Rightarrow> error + traffic_light_controller" where
  "update_logic_with_analysis k analysis_data =
     (case dict_get analysis_data ''vehicle_count'' (PInt 0) of
        PStr _ \<Rightarrow> Inl TypeError
      | PInt vehicle_count \<Rightarrow>
          (let calculated_duration =
                 green_light_base_duration k + (of_int vehicle_count * (1 / 2))
           in Inr (k\<lparr>current_green_duration :=
                       max (green_light_base_duration k)
                           (min calculated_duration (green_light_max_duration k))\<rparr>)))"

subsection \<open>The cycle thread and its interleaving with the update hook\<close>

text \<open>
  \<open>_run_dynamic_cycle\<close> runs in its own thread. Its program counter names the statement
  the thread executes next; the local variable \<open>current_duration\<close> lives between the read
  under \<open>duration_lock\<close> and the sleep that uses it, so it is carried by the program
  counter. \<open>time.sleep\<close> raises \<open>ValueError\<close> on a negative argument, which ends the
  thread.
\<close>

datatype pc =
    SetRed
  | SleepRed
  | SetGreen
  | ReadDuration
  | SleepGreen rat
  | SetYellow
  | SleepYellow
  | Dead

record system =
  controller :: traffic_light_controller
  thread_pc :: pc
  sleeps :: "(string \<times> rat) list"

definition init_system :: system where
  "init_system =
     \<lparr> controller = TrafficLightController_init, thread_pc = SetRed, sleeps = [] \<rparr>"

definition sleep :: "rat \<Rightarrow> pc \<Rightarrow> system \<Rightarrow> system" where
  "sleep d nxt s =
     (if d < 0 then s\<lparr>thread_pc := Dead\<rparr>
      else s\<lparr>sleeps := sleeps s @ [(state (controller s), d)], thread_pc := nxt\<rparr>)"

fun run_dynamic_cycle_step :: "pc \<Rightarrow> system \<Rightarrow> system" where
  "run_dynamic_cycle_step SetRed s =
     s\<lparr>controller := set_state (controller s) ''red'', thread_pc := SleepRed\<rparr>"
| "run_dynamic_cycle_step SleepRed s = sleep 15 SetGreen s"
| "run_dynamic_cycle_step SetGreen s =
     s\<lparr>controller := set_state (controller s) ''green'', thread_pc := ReadDuration\<rparr>"
| "run_dynamic_cycle_step ReadDuration s =
     s\<lparr>thread_pc := SleepGreen (current_green_duration (controller s))\<rparr>"
| "run_dynamic_cycle_step (SleepGreen current_duration) s = sleep current_duration SetYellow s"
| "run_dynamic_cycle_step SetYellow s =
     s\<lparr>controller := set_state (controller s) ''yellow'', thread_pc := SleepYellow\<rparr>"
| "run_dynamic_cycle_step SleepYellow s = sleep 3 SetRed s"
| "run_dynamic_cycle_step Dead s = s"

text \<open>
  An event is one atomic action of one thread: a statement of the cycle thread, or a call
  of the update hook by the pipeline thread. A call that raises leaves the controller as
  it was (the exception belongs to the caller).
\<close>

datatype event = Cycle | Update dict

fun step :: "event \<Rightarrow> system \<Rightarrow> system" where
  "step Cycle s = run_dynamic_cycle_step (thread_pc s) s"
| "step (Update d) s =
     (case update_logic_with_analysis (controller s) d of
        Inl e \<Rightarrow> s
      | Inr k \<Rightarrow> s\<lparr>controller := k\<rparr>)"

definition run :: "event list \<Rightarrow> system \<Rightarrow> system" where
  "run evs s = fold step evs s"

text \<open>The light states an observer sees: the state before any event and after each.\<close>

fun trace :: "system \<Rightarrow> event list \<Rightarrow> string list" where
  "trace s [] = [state (controller s)]"
| "trace s (e # es) = state (controller s) # trace (step e s) es"

definition cycle_order :: "string \<Rightarrow> string \<Rightarrow> bool" where
  "cycle_order a b =
     (a = ''red'' \<and> b = ''green'' \<or> a = ''green'' \<and> b = ''yellow'' \<or>
      a = ''yellow'' \<and> b = ''red'')"

definition exactly_one :: "light_snapshot \<Rightarrow> bool" where
  "exactly_one q = (length (filter (\<lambda>b. b) [red q, yellow q, green q]) = 1)"


text \<open>What holds at each program point of the cycle thread.\<close>

fun pc_state_ok :: "pc \<Rightarrow> string \<Rightarrow> bool" where
  "pc_state_ok SetRed st = (st = ''red'' \<or> st = ''yellow'')"
| "pc_state_ok SleepRed st = (st = ''red'')"
| "pc_state_ok SetGreen st = (st = ''red'')"
| "pc_state_ok ReadDuration st = (st = ''green'')"
| "pc_state_ok (SleepGreen d) st = (st = ''green'')"
| "pc_state_ok SetYellow st = (st = ''green'')"
| "pc_state_ok SleepYellow st = (st = ''yellow'')"
| "pc_state_ok Dead st = (st = ''red'' \<or> st = ''yellow'' \<or> st = ''green'')"

fun pc_duration_ok :: "pc \<Rightarrow> bool" where
  "pc_duration_ok (SleepGreen d) = (5 \<le> d \<and> d \<le> 20)"
| "pc_duration_ok p = True"

definition sys_inv :: "system \<Rightarrow> bool" where
  "sys_inv s =
     (pc_state_ok (thread_pc s) (state (controller s)) \<and>
      pc_duration_ok (thread_pc s) \<and>
      thread_pc s \<noteq> Dead \<and>
      green_light_base_duration (controller s) = 5 \<and>
      green_light_max_duration (controller s) = 20 \<and>
      5 \<le> current_green_duration (controller s) \<and>
      current_green_duration (controller s) \<le> 20)"

section \<open>analyzer/analyzer.py\<close>

subsection \<open>Frames, the detector and the video source\<close>

text \<open>
  A frame is a numpy array: its shape, its pixel data, and the drawing calls that
  \<open>cv2.rectangle\<close> and \<open>cv2.putText\<close> have applied to it, in order. Values are copied on
  every use, so \<open>frame.copy()\<close> is the identity.
\<close>

datatype drawing = Rectangle int int int int | PutText string int int

record frame =
  shape_rows :: nat
  shape_cols :: nat
  pixels :: "nat list"
  drawn :: "drawing list"

text \<open>
  One row of \<open>results.xyxyn[0]\<close>: the normalised box, the confidence and, last, the class
  id (a float holding a whole number). \<open>results.names\<close> maps class ids to label names; a
  lookup of an id it does not hold raises \<open>KeyError\<close>.
\<close>

record detection =
  box_x1 :: rat
  box_y1 :: rat
  box_x2 :: rat
  box_y2 :: rat
  conf :: rat
  label :: rat

record results =
  xyxyn :: "detection list"
  names :: "int \<rightharpoonup> string"

text \<open>Python's \<open>int(x)\<close> on a float truncates towards zero.\<close>

definition py_int :: "rat \<Rightarrow> int" where
  "py_int x = (if 0 \<le> x then \<lfloor>x\<rfloor> else \<lceil>x\<rceil>)"

text \<open>\<open>str.capitalize\<close> on ASCII text: first character upper case, the rest lower case.\<close>

definition ascii_upper :: "char \<Rightarrow> char" where
  "ascii_upper c =
     (let n = (of_char c :: nat) in if 97 \<le> n \<and> n \<le> 122 then char_of (n - 32) else c)"

definition ascii_lower :: "char \<Rightarrow> char" where
  "ascii_lower c =
     (let n = (of_char c :: nat) in if 65 \<le> n \<and> n \<le> 90 then char_of (n + 32) else c)"

definition capitalize :: "string \<Rightarrow> string" where
  "capitalize s = (case s of [] \<Rightarrow> [] | c # cs \<Rightarrow> ascii_upper c # map ascii_lower cs)"

definition vehicle_classes :: "string list" where
  "vehicle_classes = [''car'', ''motorcycle'', ''bus'', ''truck'']"

text \<open>
  \<open>cv2.VideoCapture\<close>: the frames of the file and the index of the next one. \<open>read\<close>
  returns the frame at the position and advances, or reports failure at the end of the
  media; \<open>set(CAP_PROP_POS_FRAMES, n)\<close> moves the position.
\<close>

record video_capture =
  is_opened :: bool
  frames :: "frame list"
  pos_frames :: nat

definition read :: "video_capture \<Rightarrow> frame option \<times> video_capture" where
  "read vc =
     (if pos_frames vc < length (frames vc)
      then (Some (frames vc ! pos_frames vc), vc\<lparr>pos_frames := pos_frames vc + 1\<rparr>)
      else (None, vc))"

definition set_pos_frames :: "video_capture \<Rightarrow> nat \<Rightarrow> video_capture" where
  "set_pos_frames vc n = vc\<lparr>pos_frames := n\<rparr>"

subsection \<open>VideoAnalyzer\<close>

text \<open>
  \<open>model\<close> is \<open>None\<close> when loading raised. \<open>save_frame_calls\<close> records the frames handed
  to \<open>_save_frame\<close>, in order: the files it writes are outside the program, and a failed
  write is caught there and changes nothing else. The controller field is the object
  the analyzer notifies.
\<close>

record video_analyzer =
  video_path :: string
  capture_dir :: string
  traffic_light_controller :: traffic_light_controller
  latest_analysis_data :: dict
  last_capture_time :: rat
  capture_interval :: rat
  model :: "(frame \<Rightarrow> error + results) option"
  save_frame_calls :: "frame list"

text \<open>\<open>__init__\<close>; \<open>now\<close> is the reading of \<open>time.time()\<close> there and \<open>loaded\<close> the outcome
  of loading the model.\<close>

definition VideoAnalyzer_init ::
    "string \<Rightarrow> traffic_light_controller \<Rightarrow> rat \<Rightarrow> (frame \<Rightarrow> error + results) option
       \<Rightarrow> video_analyzer" where
  "VideoAnalyzer_init path k now loaded =
     \<lparr> video_path = path,
       capture_dir = ''static/captured_frames'',
       traffic_light_controller = k,
       latest_analysis_data =
         [''vehicle_count'' \<mapsto> PInt 0, ''status'' \<mapsto> PStr ''Initializing...''],
       last_capture_time = now,
       capture_interval = 5,
       model = loaded,
       save_frame_calls = [] \<rparr>"

definition get_latest_analysis :: "video_analyzer \<Rightarrow> dict" where
  "get_latest_analysis a = latest_analysis_data a"

definition save_frame :: "video_analyzer \<Rightarrow> frame \<Rightarrow> video_analyzer" where
  "save_frame a f = a\<lparr>save_frame_calls := save_frame_calls a @ [f]\<rparr>"

definition draw_detection :: "frame \<Rightarrow> detection \<Rightarrow> string \<Rightarrow> nat \<Rightarrow> nat \<Rightarrow> frame" where
  "draw_detection f row label_name x_shape y_shape =
     (let x1 = py_int (box_x1 row * of_nat x_shape);
          y1 = py_int (box_y1 row * of_nat y_shape);
          x2 = py_int (box_x2 row * of_nat x_shape);
          y2 = py_int (box_y2 row * of_nat y_shape)
      in f\<lparr>drawn := drawn f @
                [Rectangle x1 y1 x2 y2, PutText (capitalize label_name) x1 (y1 - 10)]\<rparr>)"

text \<open>The \<open>for\<close> loop of \<open>process_frame\<close> over the detections, carrying the count and
  the frame drawn so far.\<close>

fun count_loop ::
    "(int \<rightharpoonup> string) \<Rightarrow> nat \<Rightarrow> nat \<Rightarrow> detection list \<Rightarrow> int \<Rightarrow> frame
       \<Rightarrow> error + (int \<times> frame)" where
  "count_loop nm x_shape y_shape [] vehicle_count f = Inr (vehicle_count, f)"
| "count_loop nm x_shape y_shape (row # rows) vehicle_count f =
     (case nm (py_int (label row)) of
        None \<Rightarrow> Inl KeyError
      | Some label_name \<Rightarrow>
          (if label_name \<in> set vehicle_classes
           then count_loop nm x_shape y_shape rows (vehicle_count + 1)
                  (draw_detection f row label_name x_shape y_shape)
           else count_loop nm x_shape y_shape rows vehicle_count f))"

definition process_frame ::
    "video_analyzer \<Rightarrow> frame \<Rightarrow> error + (frame \<times> dict \<times> video_analyzer)" where
  "process_frame a f =
     (case model a of
        None \<Rightarrow>
          Inr (f, [''vehicle_count'' \<mapsto> PInt 0, ''status'' \<mapsto> PStr ''Model not loaded''], a)
      | Some m \<Rightarrow>
          (case m f of
             Inl e \<Rightarrow> Inl e
           | Inr res \<Rightarrow>
               (case count_loop (names res) (shape_cols f) (shape_rows f) (xyxyn res) 0 f of
                  Inl e \<Rightarrow> Inl e
                | Inr (vehicle_count, f') \<Rightarrow>
                    (let analysis_data =
                           [''vehicle_count'' \<mapsto> PInt vehicle_count,
                            ''status'' \<mapsto> PStr ''Processing'']
                     in Inr (f', analysis_data, a\<lparr>latest_analysis_data := analysis_data\<rparr>)))))"

subsection \<open>generate\_frames\<close>

text \<open>
  The generator's state: the analyzer, the opened capture, and how many times the loop
  has read the clock. The clock (\<open>clock n\<close> is the \<open>n\<close>-th reading of \<open>time.time()\<close> in the
  loop) and the JPEG encoder (\<open>None\<close> when \<open>cv2.imencode\<close> reports failure) belong to the
  environment.
\<close>

record generator =
  analyzer :: video_analyzer
  capture :: video_capture
  clock_reads :: nat

datatype outcome = Yielded string | Skipped

definition chunk :: "string \<Rightarrow> string" where
  "chunk frame_bytes =
     ''--frame'' @ [CHR 0x0D, CHR 0x0A] @ ''Content-Type: image/jpeg'' @
     [CHR 0x0D, CHR 0x0A, CHR 0x0D, CHR 0x0A] @ frame_bytes @ [CHR 0x0D, CHR 0x0A]"

text \<open>\<open>generate_frames\<close> up to the loop: an unopened capture ends the generator at once.\<close>

definition generate_frames :: "video_analyzer \<Rightarrow> video_capture \<Rightarrow> generator option" where
  "generate_frames a vc =
     (if \<not> is_opened vc then None
      else Some \<lparr> analyzer = a, capture = vc, clock_reads = 0 \<rparr>)"

text \<open>One pass through the body of \<open>while True\<close>: it ends at \<open>continue\<close> (\<open>Skipped\<close>), at
  \<open>yield\<close>, or with an exception. The pacing sleep after the \<open>yield\<close> changes no state
  and is left out.\<close>

definition loop_body ::
    "(nat \<Rightarrow> rat) \<Rightarrow> (frame \<Rightarrow> string option) \<Rightarrow> generator
       \<Rightarrow> error + (outcome \<times> generator)" where
  "loop_body clock imencode g =
     (case read (capture g) of
        (None, vc) \<Rightarrow> Inr (Skipped, g\<lparr>capture := set_pos_frames vc 0\<rparr>)
      | (Some f, vc) \<Rightarrow>
          (case process_frame (analyzer g) f of
             Inl e \<Rightarrow> Inl e
           | Inr (processed_frame, analysis_data, a1) \<Rightarrow>
               (case update_logic_with_analysis (traffic_light_controller a1) analysis_data of
                  Inl e \<Rightarrow> Inl e
                | Inr k \<Rightarrow>
                    (let a2 = a1\<lparr>traffic_light_controller := k\<rparr>;
                         current_time = clock (clock_reads g);
                         a3 = (if current_time - last_capture_time a2 > capture_interval a2
                               then (save_frame a2 processed_frame)
                                      \<lparr>last_capture_time := current_time\<rparr>
                               else a2);
                         g' = \<lparr> analyzer = a3, capture = vc,
                                clock_reads = clock_reads g + 1 \<rparr>
                     in (case imencode processed_frame of
                           None \<Rightarrow> Inr (Skipped, g')
                         | Some buffer \<Rightarrow> Inr (Yielded (chunk buffer), g'))))))"

text \<open>\<open>n\<close> passes through the loop body, stopping at an exception.\<close>

fun passes ::
    "(nat \<Rightarrow> rat) \<Rightarrow> (frame \<Rightarrow> string option) \<Rightarrow> nat \<Rightarrow> generator \<Rightarrow> error + generator" where
  "passes clock imencode 0 g = Inr g"
| "passes clock imencode (Suc n) g =
     (case loop_body clock imencode g of
        Inl e \<Rightarrow> Inl e
      | Inr (out, g') \<Rightarrow> passes clock imencode n g')"



text \<open>A detection counts as a vehicle when its label name is one of the four classes.\<close>

definition is_vehicle :: "(int \<rightharpoonup> string) \<Rightarrow> detection \<Rightarrow> bool" where
  "is_vehicle nm row =
     (case nm (py_int (label row)) of
        None \<Rightarrow> False
      | Some label_name \<Rightarrow> label_name \<in> set vehicle_classes)"


subsection \<open>A two-frame video and a detector with a fixed answer\<close>

definition demo_frame :: frame where
  "demo_frame = \<lparr>shape_rows = 2, shape_cols = 4, pixels = [1, 2], drawn = []\<rparr>"

definition demo_results :: results where
  "demo_results =
     \<lparr>xyxyn =
        [\<lparr>box_x1 = 1 / 4, box_y1 = 1 / 2, box_x2 = 3 / 4, box_y2 = 1, conf = 9 / 10, label = 2\<rparr>,
         \<lparr>box_x1 = 0, box_y1 = 0, box_x2 = 1 / 2, box_y2 = 1 / 2, conf = 4 / 5, label = 0\<rparr>,
         \<lparr>box_x1 = 0, box_y1 = 0, box_x2 = 1 / 2, box_y2 = 1 / 2, conf = 7 / 10, label = 7\<rparr>],
      names = [0 \<mapsto> ''person'', 2 \<mapsto> ''car'', 7 \<mapsto> ''truck'']\<rparr>"

definition demo_generator :: "(frame \<Rightarrow> error + results) option \<Rightarrow> nat \<Rightarrow> generator" where
  "demo_generator loaded p =
     \<lparr> analyzer = VideoAnalyzer_init ''traffic.mp4'' TrafficLightController_init 0 loaded,
       capture = \<lparr>is_opened = True, frames = [demo_frame, demo_frame], pos_frames = p\<rparr>,
       clock_reads = 0 \<rparr>"

section \<open>Properties of the light controller\<close>

lemma inv_init: "sys_inv init_system"
  by (simp add: sys_inv_def init_system_def TrafficLightController_init_def)

lemma update_fields:
  "update_logic_with_analysis k d = Inr k' \<Longrightarrow>
     state k' = state k \<and>
     green_light_base_duration k' = green_light_base_duration k \<and>
     green_light_max_duration k' = green_light_max_duration k"
  by (auto simp: update_logic_with_analysis_def Let_def split: pyval.splits)

lemma update_range:
  "update_logic_with_analysis k d = Inr k' \<Longrightarrow>
   green_light_base_duration k = 5 \<Longrightarrow> green_light_max_duration k = 20 \<Longrightarrow>
     5 \<le> current_green_duration k' \<and> current_green_duration k' \<le> 20"
  by (auto simp: update_logic_with_analysis_def Let_def split: pyval.splits)

lemma inv_update: "sys_inv s \<Longrightarrow> sys_inv (step (Update d) s)"
proof (cases "update_logic_with_analysis (controller s) d")
  case (Inl e)
  assume "sys_inv s"
  with Inl show ?thesis by simp
next
  case (Inr k)
  assume i: "sys_inv s"
  from update_fields [OF Inr] update_range [OF Inr] i Inr show ?thesis
    by (simp add: sys_inv_def)
qed

lemma inv_cycle: "sys_inv s \<Longrightarrow> sys_inv (step Cycle s)"
  by (cases "thread_pc s") (auto simp: sys_inv_def set_state_def sleep_def)

lemma inv_step: "sys_inv s \<Longrightarrow> sys_inv (step e s)"
  by (cases e) (simp_all only: inv_cycle inv_update)

lemma inv_run: "sys_inv s \<Longrightarrow> sys_inv (run evs s)"
  unfolding run_def by (induction evs arbitrary: s) (simp_all add: inv_step)

lemma inv_reachable: "sys_inv (run evs init_system)"
  by (rule inv_run [OF inv_init])

lemma legal_step:
  "sys_inv s \<Longrightarrow>
     state (controller (step e s)) = state (controller s) \<or>
     cycle_order (state (controller s)) (state (controller (step e s)))"
proof (cases e)
  case Cycle
  assume "sys_inv s"
  with Cycle show ?thesis
    by (cases "thread_pc s") (auto simp: sys_inv_def set_state_def sleep_def cycle_order_def)
next
  case (Update d)
  then show ?thesis
    by (cases "update_logic_with_analysis (controller s) d") (auto dest: update_fields)
qed

lemma trace_hd: "hd (trace s evs) = state (controller s)"
  by (cases evs) simp_all

lemma trace_legal:
  "sys_inv s \<Longrightarrow> successively (\<lambda>a b. a = b \<or> cycle_order a b) (trace s evs)"
proof (induction evs arbitrary: s)
  case Nil
  then show ?case by simp
next
  case (Cons e es)
  have "successively (\<lambda>a b. a = b \<or> cycle_order a b) (trace (step e s) es)"
    by (rule Cons.IH [OF inv_step [OF Cons.prems]])
  moreover have "trace (step e s) es \<noteq> []" by (cases es) simp_all
  ultimately show ?case
    using legal_step [OF Cons.prems, of e] trace_hd [of "step e s" es]
    by (auto simp: successively_Cons)
qed

lemma successively_remdups_strict:
  "successively (\<lambda>a b. a = b \<or> P a b) xs \<Longrightarrow> successively P (remdups_adj xs)"
proof (induction xs rule: remdups_adj.induct)
  case (3 x y xs)
  then show ?case by (auto simp: successively_Cons split: if_splits)
qed simp_all



lemma update_missing:
  "d ''vehicle_count'' = None \<Longrightarrow>
     update_logic_with_analysis k d =
       Inr (k\<lparr>current_green_duration :=
                max (green_light_base_duration k)
                    (min (green_light_base_duration k) (green_light_max_duration k))\<rparr>)"
  by (simp add: update_logic_with_analysis_def dict_get_def)



text \<open>
  Claim C9. In every reachable state of the controller, an analysis dictionary without
  the key \<open>"vehicle_count"\<close> is treated as a count of 0: the call returns normally and
  the stored green duration becomes the base duration, 5 seconds.
\<close>

theorem missing_count_gives_base:
  assumes "d ''vehicle_count'' = None"
    and "k = controller (run evs init_system)"
  shows "update_logic_with_analysis k d = Inr (k\<lparr>current_green_duration := 5\<rparr>)"
proof -
  have "sys_inv (run evs init_system)" by (rule inv_reachable)
  then have "green_light_base_duration k = 5" and "green_light_max_duration k = 20"
    using assms(2) by (simp_all add: sys_inv_def)
  with update_missing [of d k] assms(1) show ?thesis by simp
qed

theorem missing_count_gives_base_witness:
  "update_logic_with_analysis
     (controller (run [Cycle, Update [''vehicle_count'' \<mapsto> PInt 12]] init_system))
     [''status'' \<mapsto> PStr ''Processing''] =
   Inr ((controller (run [Cycle, Update [''vehicle_count'' \<mapsto> PInt 12]] init_system))
          \<lparr>current_green_duration := 5\<rparr>) \<and>
   current_green_duration
     (controller (run [Cycle, Update [''vehicle_count'' \<mapsto> PInt 12]] init_system)) = 11"
proof -
  have a: "[''status'' \<mapsto> PStr ''Processing''] ''vehicle_count'' = None" by simp
  have b: "current_green_duration
     (controller (run [Cycle, Update [''vehicle_count'' \<mapsto> PInt 12]] init_system)) = 11"
    by (simp add: run_def init_system_def TrafficLightController_init_def set_state_def
        update_logic_with_analysis_def dict_get_def Let_def)
  show ?thesis
    using missing_count_gives_base [of "[''status'' \<mapsto> PStr ''Processing'']" _
        "[Cycle, Update [''vehicle_count'' \<mapsto> PInt 12]]", OF a refl] b
    by simp
qed

text \<open>
  Claim C5. In every state the controller reaches, under any interleaving of the cycle
  thread with update calls, the snapshot \<open>get_state\<close> returns has exactly one of its three
  flags set.
\<close>

theorem snapshot_exactly_one:
  "exactly_one (get_state (controller (run evs init_system)))"
proof -
  have "sys_inv (run evs init_system)" by (rule inv_reachable)
  then have "pc_state_ok (thread_pc (run evs init_system))
               (state (controller (run evs init_system)))"
    by (simp add: sys_inv_def)
  then have "state (controller (run evs init_system)) \<in> {''red'', ''yellow'', ''green''}"
    by (cases "thread_pc (run evs init_system)") auto
  then show ?thesis by (auto simp: exactly_one_def get_state_def)
qed

theorem snapshot_exactly_one_witness:
  "exactly_one (get_state (controller (run [Cycle, Cycle, Cycle] init_system))) \<and>
   get_state (controller (run [Cycle, Cycle, Cycle] init_system)) =
     \<lparr>red = False, yellow = False, green = True\<rparr>"
proof -
  have "get_state (controller (run [Cycle, Cycle, Cycle] init_system)) =
     \<lparr>red = False, yellow = False, green = True\<rparr>"
    by (simp add: run_def init_system_def TrafficLightController_init_def set_state_def
        sleep_def get_state_def)
  with snapshot_exactly_one [of "[Cycle, Cycle, Cycle]"] show ?thesis by simp
qed

text \<open>
  Claim C4. The first light state observed is red, and along any interleaving of the
  cycle thread with update calls every change of the observed light state is one of
  red to green, green to yellow, yellow to red. The cycle thread never stops.
\<close>

theorem cycle_order_only:
  "hd (trace init_system evs) = ''red'' \<and>
   successively cycle_order (remdups_adj (trace init_system evs)) \<and>
   thread_pc (run evs init_system) \<noteq> Dead"
proof -
  have "hd (trace init_system evs) = ''red''"
    by (simp add: trace_hd init_system_def TrafficLightController_init_def)
  moreover have "successively cycle_order (remdups_adj (trace init_system evs))"
    by (rule successively_remdups_strict [OF trace_legal [OF inv_init]])
  moreover have "thread_pc (run evs init_system) \<noteq> Dead"
    using inv_reachable [of evs] by (simp add: sys_inv_def)
  ultimately show ?thesis by simp
qed

theorem cycle_order_only_witness:
  "remdups_adj (trace init_system
      [Cycle, Cycle, Update [''vehicle_count'' \<mapsto> PInt 3], Cycle, Cycle, Cycle, Cycle, Cycle, Cycle])
     = [''red'', ''green'', ''yellow'', ''red''] \<and>
   successively cycle_order (remdups_adj (trace init_system
      [Cycle, Cycle, Update [''vehicle_count'' \<mapsto> PInt 3], Cycle, Cycle, Cycle, Cycle, Cycle, Cycle]))"
proof -
  have "remdups_adj (trace init_system
      [Cycle, Cycle, Update [''vehicle_count'' \<mapsto> PInt 3], Cycle, Cycle, Cycle, Cycle, Cycle, Cycle])
     = [''red'', ''green'', ''yellow'', ''red'']"
    by (simp add: init_system_def TrafficLightController_init_def set_state_def
        sleep_def update_logic_with_analysis_def dict_get_def Let_def)
  with cycle_order_only [of "[Cycle, Cycle, Update [''vehicle_count'' \<mapsto> PInt 3], Cycle, Cycle, Cycle, Cycle, Cycle, Cycle]"]
  show ?thesis by blast
qed

lemma update_only_duration:
  "update_logic_with_analysis k d = Inr k' \<Longrightarrow>
     k' = k\<lparr>current_green_duration := current_green_duration k'\<rparr>"
  by (auto simp: update_logic_with_analysis_def Let_def split: pyval.splits)

lemma step_update_frame:
  "thread_pc (step (Update d) s) = thread_pc s \<and>
   sleeps (step (Update d) s) = sleeps s \<and>
   state (controller (step (Update d) s)) = state (controller s)"
  by (cases "update_logic_with_analysis (controller s) d") (auto dest: update_fields)

lemma run_updates_frame:
  "thread_pc (run (map Update ds) s) = thread_pc s \<and>
   sleeps (run (map Update ds) s) = sleeps s \<and>
   state (controller (run (map Update ds) s)) = state (controller s)"
proof (induction ds arbitrary: s)
  case Nil
  show ?case by (simp add: run_def)
next
  case (Cons d ds)
  have "run (map Update (d # ds)) s = run (map Update ds) (step (Update d) s)"
    by (simp add: run_def)
  with Cons [of "step (Update d) s"] step_update_frame [of d s] show ?case by simp
qed

lemma cycle_ignores_duration:
  "thread_pc s \<noteq> ReadDuration \<Longrightarrow>
     step Cycle (s\<lparr>controller := (controller s)\<lparr>current_green_duration := x\<rparr>\<rparr>) =
     (step Cycle s)\<lparr>controller :=
        (controller (step Cycle s))\<lparr>current_green_duration := x\<rparr>\<rparr>"
  by (cases "thread_pc s") (auto simp: set_state_def sleep_def)

text \<open>
  Claim C8. A successful \<open>update_logic_with_analysis\<close> changes the stored green duration
  and no other field, so the light state stays as it was. The cycle thread reads the
  stored duration in one statement only, the one that follows the entry into green:
  the value read there is the dwell of that green phase whatever updates arrive between
  the read and the sleep, and every other statement of the cycle is independent of the
  stored duration.
\<close>

theorem update_touches_only_duration:
  "(update_logic_with_analysis k d = Inr k' \<longrightarrow>
      k' = k\<lparr>current_green_duration := current_green_duration k'\<rparr> \<and> state k' = state k) \<and>
   (s = run evs init_system \<and> thread_pc s = ReadDuration \<longrightarrow>
      state (controller s) = ''green'' \<and>
      thread_pc (step Cycle s) = SleepGreen (current_green_duration (controller s)) \<and>
      sleeps (step Cycle (run (map Update ds) (step Cycle s))) =
        sleeps s @ [(''green'', current_green_duration (controller s))]) \<and>
   (thread_pc t \<noteq> ReadDuration \<longrightarrow>
      step Cycle (t\<lparr>controller := (controller t)\<lparr>current_green_duration := x\<rparr>\<rparr>) =
      (step Cycle t)\<lparr>controller :=
         (controller (step Cycle t))\<lparr>current_green_duration := x\<rparr>\<rparr>)"
proof (intro conjI impI)
  assume u: "update_logic_with_analysis k d = Inr k'"
  show "k' = k\<lparr>current_green_duration := current_green_duration k'\<rparr>"
    by (rule update_only_duration [OF u])
  show "state k' = state k" using update_fields [OF u] by simp
next
  assume a: "s = run evs init_system \<and> thread_pc s = ReadDuration"
  then have i: "sys_inv s" using inv_reachable by simp
  from a have p: "thread_pc s = ReadDuration" by blast
  from i p show g: "state (controller s) = ''green''" by (simp add: sys_inv_def)
  let ?d = "current_green_duration (controller s)"
  let ?s1 = "step Cycle s"
  from p show p1: "thread_pc ?s1 = SleepGreen ?d" by simp
  from i p have r: "0 \<le> ?d" by (simp add: sys_inv_def)
  let ?s2 = "run (map Update ds) ?s1"
  from p have s1: "sleeps ?s1 = sleeps s" "state (controller ?s1) = ''green''"
    using g by simp_all
  from run_updates_frame [of ds ?s1] p1 s1
  have f: "thread_pc ?s2 = SleepGreen ?d" "sleeps ?s2 = sleeps s"
    "state (controller ?s2) = ''green''" by simp_all
  from f r show "sleeps (step Cycle ?s2) = sleeps s @ [(''green'', ?d)]"
    by (simp add: sleep_def)
next
  assume "thread_pc t \<noteq> ReadDuration"
  then show "step Cycle (t\<lparr>controller := (controller t)\<lparr>current_green_duration := x\<rparr>\<rparr>) =
      (step Cycle t)\<lparr>controller :=
         (controller (step Cycle t))\<lparr>current_green_duration := x\<rparr>\<rparr>"
    by (rule cycle_ignores_duration)
qed

lemmas run_simps = run_def init_system_def TrafficLightController_init_def set_state_def
  sleep_def update_logic_with_analysis_def dict_get_def Let_def

theorem update_touches_only_duration_witness:
  "state (controller (step (Update [''vehicle_count'' \<mapsto> PInt 10]) init_system)) = ''red'' \<and>
   current_green_duration
     (controller (step (Update [''vehicle_count'' \<mapsto> PInt 10]) init_system)) = 10 \<and>
   thread_pc (run [Cycle, Cycle, Cycle] init_system) = ReadDuration \<and>
   current_green_duration
     (controller (run (map Update [[''vehicle_count'' \<mapsto> PInt 40]])
        (step Cycle (run [Cycle, Cycle, Cycle] init_system)))) = 20 \<and>
   sleeps (step Cycle (run (map Update [[''vehicle_count'' \<mapsto> PInt 40]])
        (step Cycle (run [Cycle, Cycle, Cycle] init_system)))) =
     [(''red'', 15), (''green'', 5)] \<and>
   current_green_duration
     (controller (step Cycle
        (init_system\<lparr>controller :=
           (controller init_system)\<lparr>current_green_duration := 9\<rparr>\<rparr>))) = 9"
proof -
  let ?d = "[''vehicle_count'' \<mapsto> PInt 10]"
  let ?k = "controller init_system"
  let ?s = "run [Cycle, Cycle, Cycle] init_system"
  let ?ds = "[[''vehicle_count'' \<mapsto> PInt 40]]"
  have u: "update_logic_with_analysis ?k ?d = Inr (?k\<lparr>current_green_duration := 10\<rparr>)"
    by (simp add: run_simps)
  have p: "thread_pc ?s = ReadDuration" by (simp add: run_simps)
  have q: "sleeps ?s = [(''red'', 15)]" "current_green_duration (controller ?s) = 5"
    by (simp_all add: run_simps)
  have m: "current_green_duration (controller (run (map Update ?ds) (step Cycle ?s))) = 20"
    by (simp add: run_simps)
  have t: "thread_pc init_system \<noteq> ReadDuration" by (simp add: init_system_def)
  note w = update_touches_only_duration
    [of ?k ?d "?k\<lparr>current_green_duration := 10\<rparr>" ?s "[Cycle, Cycle, Cycle]" ?ds
      init_system 9]
  from w u have a: "state (?k\<lparr>current_green_duration := 10\<rparr>) = state ?k" by blast
  from u a have a1: "state (controller (step (Update ?d) init_system)) = ''red''"
    "current_green_duration (controller (step (Update ?d) init_system)) = 10"
    by (simp_all add: init_system_def TrafficLightController_init_def)
  from w p have "sleeps (step Cycle (run (map Update ?ds) (step Cycle ?s))) =
        sleeps ?s @ [(''green'', current_green_duration (controller ?s))]" by blast
  with q have b: "sleeps (step Cycle (run (map Update ?ds) (step Cycle ?s))) =
     [(''red'', 15), (''green'', 5)]" by simp
  from w t have "step Cycle (init_system\<lparr>controller := ?k\<lparr>current_green_duration := 9\<rparr>\<rparr>) =
      (step Cycle init_system)\<lparr>controller :=
         (controller (step Cycle init_system))\<lparr>current_green_duration := 9\<rparr>\<rparr>" by blast
  then have c: "current_green_duration (controller (step Cycle
        (init_system\<lparr>controller := ?k\<lparr>current_green_duration := 9\<rparr>\<rparr>))) = 9" by simp
  from a1 p m b c show ?thesis by blast
qed

section \<open>Properties of the analyzer\<close>

lemma count_loop_counts:
  "\<forall>row \<in> set rows. nm (py_int (label row)) \<noteq> None \<Longrightarrow>
     \<exists>f'. count_loop nm xs ys rows c f =
            Inr (c + int (length (filter (is_vehicle nm) rows)), f')"
proof (induction rows arbitrary: c f)
  case Nil
  show ?case by simp
next
  case (Cons row rows)
  from Cons.prems obtain label_name where n: "nm (py_int (label row)) = Some label_name"
    by auto
  from Cons.prems have r: "\<forall>row \<in> set rows. nm (py_int (label row)) \<noteq> None" by simp
  show ?case
  proof (cases "label_name \<in> set vehicle_classes")
    case True
    from Cons.IH [OF r, of "c + 1" "draw_detection f row label_name xs ys"] n True
    show ?thesis by (auto simp: is_vehicle_def)
  next
    case False
    from Cons.IH [OF r, of c f] n False
    show ?thesis by (auto simp: is_vehicle_def)
  qed
qed

lemma count_loop_grows:
  "count_loop nm xs ys rows c f = Inr (c', f') \<Longrightarrow> c \<le> c'"
proof (induction rows arbitrary: c f)
  case Nil
  then show ?case by simp
next
  case (Cons row rows)
  then show ?case
    by (fastforce split: option.splits if_splits)
qed

lemma is_vehicle_classes:
  "is_vehicle nm row \<longleftrightarrow>
     nm (py_int (label row)) \<in> Some ` {''car'', ''motorcycle'', ''bus'', ''truck''}"
  by (auto simp: is_vehicle_def vehicle_classes_def split: option.splits)


lemma process_frame_dict:
  "process_frame a f = Inr (pf, d, a1) \<Longrightarrow>
     \<exists>c. 0 \<le> c \<and> d ''vehicle_count'' = Some (PInt c) \<and>
         (model a = None \<or> latest_analysis_data a1 = d)"
  by (auto simp: process_frame_def Let_def split: option.splits sum.splits prod.splits
      dest: count_loop_grows)

lemma process_frame_no_model:
  "model a = None \<Longrightarrow>
     process_frame a f =
       Inr (f, [''vehicle_count'' \<mapsto> PInt 0, ''status'' \<mapsto> PStr ''Model not loaded''], a)"
  by (simp add: process_frame_def)

text \<open>
  Claim C3. When the model is loaded and answers a frame with detections whose class ids
  its name table holds, \<open>process_frame\<close> returns and stores an analysis result whose
  vehicle count is the number of detections labelled car, motorcycle, bus or truck;
  detections with any other label add nothing, and the count is not negative.
\<close>

theorem count_is_number_of_vehicles:
  assumes "model a = Some m" and "m f = Inr res"
    and "\<forall>row \<in> set (xyxyn res). names res (py_int (label row)) \<noteq> None"
  shows "\<exists>f' d a'. process_frame a f = Inr (f', d, a') \<and>
           get_latest_analysis a' = d \<and>
           d ''vehicle_count'' =
             Some (PInt (int (length (filter
               (\<lambda>row. names res (py_int (label row)) \<in>
                        Some ` {''car'', ''motorcycle'', ''bus'', ''truck''})
               (xyxyn res))))) \<and>
           (\<exists>c. d ''vehicle_count'' = Some (PInt c) \<and> 0 \<le> c)"
proof -
  let ?n = "int (length (filter
               (\<lambda>row. names res (py_int (label row)) \<in>
                        Some ` {''car'', ''motorcycle'', ''bus'', ''truck''})
               (xyxyn res)))"
  let ?d = "[''vehicle_count'' \<mapsto> PInt ?n, ''status'' \<mapsto> PStr ''Processing'']"
  have e: "filter (is_vehicle (names res)) (xyxyn res) =
      filter (\<lambda>row. names res (py_int (label row)) \<in>
                        Some ` {''car'', ''motorcycle'', ''bus'', ''truck''}) (xyxyn res)"
    by (rule filter_cong [OF refl]) (simp only: is_vehicle_classes)
  from count_loop_counts [OF assms(3), of "shape_cols f" "shape_rows f" 0 f]
  obtain f' where
    "count_loop (names res) (shape_cols f) (shape_rows f) (xyxyn res) 0 f =
       Inr (int (length (filter (is_vehicle (names res)) (xyxyn res))), f')"
    by auto
  with e have "count_loop (names res) (shape_cols f) (shape_rows f) (xyxyn res) 0 f =
       Inr (?n, f')" by simp
  with assms(1,2)
  have p: "process_frame a f = Inr (f', ?d, a\<lparr>latest_analysis_data := ?d\<rparr>)"
    by (simp add: process_frame_def Let_def)
  have g: "get_latest_analysis (a\<lparr>latest_analysis_data := ?d\<rparr>) = ?d"
    by (simp add: get_latest_analysis_def)
  have v: "?d ''vehicle_count'' = Some (PInt ?n)" by simp
  have "0 \<le> ?n" by simp
  with p g v show ?thesis by blast
qed

lemma read_fails:
  "\<not> pos_frames vc < length (frames vc) \<Longrightarrow> read vc = (None, vc)"
  by (simp add: read_def)

lemma read_succeeds:
  "pos_frames vc < length (frames vc) \<Longrightarrow>
     read vc = (Some (frames vc ! pos_frames vc), vc\<lparr>pos_frames := pos_frames vc + 1\<rparr>)"
  by (simp add: read_def)

lemma loop_body_at_end:
  "\<not> pos_frames (capture g) < length (frames (capture g)) \<Longrightarrow>
     loop_body clock enc g = Inr (Skipped, g\<lparr>capture := (capture g)\<lparr>pos_frames := 0\<rparr>\<rparr>)"
  by (simp add: loop_body_def read_fails set_pos_frames_def)

lemma loop_body_on_frame:
  assumes "pos_frames (capture g) < length (frames (capture g))"
    and "process_frame (analyzer g) (frames (capture g) ! pos_frames (capture g)) =
           Inr (pf, d, a1)"
    and "update_logic_with_analysis (traffic_light_controller a1) d = Inr k"
  shows "loop_body clock enc g =
     Inr (case enc pf of None \<Rightarrow> Skipped | Some buffer \<Rightarrow> Yielded (chunk buffer),
          \<lparr> analyzer =
              (if clock (clock_reads g) - last_capture_time a1 > capture_interval a1
               then a1\<lparr>traffic_light_controller := k, last_capture_time := clock (clock_reads g),
                       save_frame_calls := save_frame_calls a1 @ [pf]\<rparr>
               else a1\<lparr>traffic_light_controller := k\<rparr>),
            capture = (capture g)\<lparr>pos_frames := pos_frames (capture g) + 1\<rparr>,
            clock_reads = clock_reads g + 1 \<rparr>)"
  using assms
  by (simp add: loop_body_def read_succeeds Let_def save_frame_def split: option.splits)

lemma loop_body_cases:
  assumes "loop_body clock enc g = Inr (out, g')"
  obtains
    (at_end) "\<not> pos_frames (capture g) < length (frames (capture g))"
      "out = Skipped" "g' = g\<lparr>capture := (capture g)\<lparr>pos_frames := 0\<rparr>\<rparr>"
  | (on_frame) pf d a1 k where
      "pos_frames (capture g) < length (frames (capture g))"
      "process_frame (analyzer g) (frames (capture g) ! pos_frames (capture g)) =
         Inr (pf, d, a1)"
      "update_logic_with_analysis (traffic_light_controller a1) d = Inr k"
proof (cases "pos_frames (capture g) < length (frames (capture g))")
  case False
  with assms loop_body_at_end [OF False, of clock enc] show ?thesis
    by (intro at_end) simp_all
next
  case True
  let ?f = "frames (capture g) ! pos_frames (capture g)"
  from assms True obtain pf d a1 where p: "process_frame (analyzer g) ?f = Inr (pf, d, a1)"
    by (cases "process_frame (analyzer g) ?f")
       (auto simp: loop_body_def read_succeeds)
  from assms True p obtain k where "update_logic_with_analysis (traffic_light_controller a1) d = Inr k"
    by (cases "update_logic_with_analysis (traffic_light_controller a1) d")
       (auto simp: loop_body_def read_succeeds)
  with True p show ?thesis by (rule on_frame)
qed

lemma loop_body_count_nonneg:
  assumes "loop_body clock enc g = Inr (out, g')"
    and "\<exists>c\<ge>0. latest_analysis_data (analyzer g) ''vehicle_count'' = Some (PInt c)"
  shows "\<exists>c\<ge>0. latest_analysis_data (analyzer g') ''vehicle_count'' = Some (PInt c)"
  using assms(1)
proof (cases rule: loop_body_cases)
  case at_end
  with assms(2) show ?thesis by simp
next
  case (on_frame pf d a1 k)
  from loop_body_on_frame [OF on_frame, of clock enc] assms(1)
  have l: "latest_analysis_data (analyzer g') = latest_analysis_data a1" by auto
  from process_frame_dict [OF on_frame(2)] obtain c where
    c: "0 \<le> c" "d ''vehicle_count'' = Some (PInt c)"
      "model (analyzer g) = None \<or> latest_analysis_data a1 = d" by blast
  show ?thesis
  proof (cases "model (analyzer g)")
    case None
    with on_frame(2) process_frame_no_model [OF None] have "a1 = analyzer g" by simp
    with l assms(2) show ?thesis by simp
  next
    case (Some m)
    with c l show ?thesis by auto
  qed
qed

lemma passes_count_nonneg:
  "passes clock enc n g = Inr g' \<Longrightarrow>
   \<exists>c\<ge>0. latest_analysis_data (analyzer g) ''vehicle_count'' = Some (PInt c) \<Longrightarrow>
     \<exists>c\<ge>0. latest_analysis_data (analyzer g') ''vehicle_count'' = Some (PInt c)"
proof (induction n arbitrary: g)
  case 0
  then show ?case by simp
next
  case (Suc n)
  from Suc.prems(1) obtain out g1 where
    b: "loop_body clock enc g = Inr (out, g1)" and r: "passes clock enc n g1 = Inr g'"
    by (auto split: sum.splits)
  from Suc.IH [OF r loop_body_count_nonneg [OF b Suc.prems(2)]] show ?case .
qed

text \<open>
  Claim C10. Straight after construction \<open>get_latest_analysis\<close> returns a vehicle count
  of 0 with the status \<open>Initializing...\<close>, and after any number of passes of the
  generator's loop the retained vehicle count is an integer that is not negative.
\<close>

theorem initial_analysis_and_count_nonneg:
  "get_latest_analysis (VideoAnalyzer_init path k now loaded) =
     [''vehicle_count'' \<mapsto> PInt 0, ''status'' \<mapsto> PStr ''Initializing...''] \<and>
   (generate_frames (VideoAnalyzer_init path k now loaded) vc = Some g0 \<and>
    passes clock enc n g0 = Inr g \<longrightarrow>
      (\<exists>c\<ge>0. get_latest_analysis (analyzer g) ''vehicle_count'' = Some (PInt c)))"
proof (intro conjI impI)
  show "get_latest_analysis (VideoAnalyzer_init path k now loaded) =
     [''vehicle_count'' \<mapsto> PInt 0, ''status'' \<mapsto> PStr ''Initializing...'']"
    by (simp add: get_latest_analysis_def VideoAnalyzer_init_def)
next
  assume a: "generate_frames (VideoAnalyzer_init path k now loaded) vc = Some g0 \<and>
    passes clock enc n g0 = Inr g"
  then have "analyzer g0 = VideoAnalyzer_init path k now loaded"
    by (auto simp: generate_frames_def split: if_splits)
  then have "\<exists>c\<ge>0. latest_analysis_data (analyzer g0) ''vehicle_count'' = Some (PInt c)"
    by (simp add: VideoAnalyzer_init_def)
  with a passes_count_nonneg [of clock enc n g0 g]
  show "\<exists>c\<ge>0. get_latest_analysis (analyzer g) ''vehicle_count'' = Some (PInt c)"
    by (simp add: get_latest_analysis_def)
qed












text \<open>
  Claim C2. With no model loaded, \<open>process_frame\<close> returns the frame as it received it
  together with a result of count 0 and status \<open>Model not loaded\<close>, but the early return
  leaves the analyzer as it was: \<open>get_latest_analysis\<close> still returns the initial result,
  whose status is \<open>Initializing...\<close>.
\<close>

theorem model_unavailable_status_not_retained:
  "process_frame (VideoAnalyzer_init path k now None) f =
     Inr (f, [''vehicle_count'' \<mapsto> PInt 0, ''status'' \<mapsto> PStr ''Model not loaded''],
          VideoAnalyzer_init path k now None) \<and>
   get_latest_analysis (VideoAnalyzer_init path k now None) =
     [''vehicle_count'' \<mapsto> PInt 0, ''status'' \<mapsto> PStr ''Initializing...'']"
  by (simp add: process_frame_def VideoAnalyzer_init_def get_latest_analysis_def)

lemmas demo_simps = demo_generator_def demo_frame_def demo_results_def VideoAnalyzer_init_def
  TrafficLightController_init_def loop_body_def read_def set_pos_frames_def process_frame_def
  update_logic_with_analysis_def dict_get_def save_frame_def draw_detection_def py_int_def
  vehicle_classes_def Let_def

theorem count_is_number_of_vehicles_witness:
  "\<exists>f' d a'.
     process_frame
       (VideoAnalyzer_init ''traffic.mp4'' TrafficLightController_init 0
          (Some (\<lambda>f. Inr demo_results))) demo_frame = Inr (f', d, a') \<and>
     get_latest_analysis a' = d \<and> d ''vehicle_count'' = Some (PInt 2)"
proof -
  let ?a = "VideoAnalyzer_init ''traffic.mp4'' TrafficLightController_init 0
              (Some (\<lambda>f. Inr demo_results))"
  have m: "model ?a = Some (\<lambda>f. Inr demo_results)" by (simp add: VideoAnalyzer_init_def)
  have r: "(\<lambda>f. Inr demo_results) demo_frame = (Inr demo_results :: error + results)"
    by simp
  have n: "\<forall>row \<in> set (xyxyn demo_results). names demo_results (py_int (label row)) \<noteq> None"
    by (simp add: demo_results_def py_int_def)
  have c: "int (length (filter
               (\<lambda>row. names demo_results (py_int (label row)) \<in>
                        Some ` {''car'', ''motorcycle'', ''bus'', ''truck''})
               (xyxyn demo_results))) = 2"
    by (simp add: demo_results_def py_int_def)
  from count_is_number_of_vehicles [OF m r n] show ?thesis unfolding c by blast
qed

theorem initial_analysis_and_count_nonneg_witness:
  "get_latest_analysis
     (VideoAnalyzer_init ''traffic.mp4'' TrafficLightController_init 0
        (Some (\<lambda>f. Inr demo_results))) ''status'' = Some (PStr ''Initializing...'') \<and>
   (\<exists>g. passes (\<lambda>n. 6 + 2 * of_nat n) (\<lambda>f. Some ''jpeg'') 5
           (demo_generator (Some (\<lambda>f. Inr demo_results)) 0) = Inr g \<and>
        (\<exists>c\<ge>0. get_latest_analysis (analyzer g) ''vehicle_count'' = Some (PInt c)))"
proof -
  let ?a = "VideoAnalyzer_init ''traffic.mp4'' TrafficLightController_init 0
              (Some (\<lambda>f. Inr demo_results))"
  let ?vc = "\<lparr>is_opened = True, frames = [demo_frame, demo_frame], pos_frames = 0\<rparr>"
  let ?g0 = "demo_generator (Some (\<lambda>f. Inr demo_results)) 0"
  have o: "generate_frames ?a ?vc = Some ?g0"
    by (simp add: generate_frames_def demo_generator_def)
  have "\<exists>g. passes (\<lambda>n. 6 + 2 * of_nat n) (\<lambda>f. Some ''jpeg'') 5 ?g0 = Inr g"
    by (simp add: demo_simps eval_nat_numeral)
  then obtain g where
    p: "passes (\<lambda>n. 6 + 2 * of_nat n) (\<lambda>f. Some ''jpeg'') 5 ?g0 = Inr g" by blast
  from initial_analysis_and_count_nonneg
    [of "''traffic.mp4''" TrafficLightController_init 0 "Some (\<lambda>f. Inr demo_results)"
      ?vc ?g0 "\<lambda>n. 6 + 2 * of_nat n" "\<lambda>f. Some ''jpeg''" 5 g] o p
  show ?thesis by auto
qed



end
